theory Spec2Isabelle
  imports Main "HOL-Library.AList"
begin

section \<open>JavaScript values\<close>

text \<open>
  The service handles parsed JSON (broker messages, webhook bodies) and builds object
  literals from it. A value is one of JavaScript's kinds; a number is carried as its
  canonical rendering (what \<^verbatim>\<open>String(n)\<close> gives), which is all the code ever observes
  of it (truthiness and interpolation into a room name). An object is the list of its own
  properties in insertion order.
\<close>

datatype jsval =
    JUndefined
  | JNull
  | JBool bool
  | JNum string
  | JStr string
  | JArr "jsval list"
  | JObj "(string \<times> jsval) list"

type_synonym jsobject = "(string \<times> jsval) list"

text \<open>Truthiness, as \<^verbatim>\<open>!x\<close>, \<^verbatim>\<open>if (x)\<close> and \<^verbatim>\<open>x || y\<close> read it.\<close>

fun truthy :: "jsval \<Rightarrow> bool" where
  "truthy JUndefined = False"
| "truthy JNull = False"
| "truthy (JBool b) = b"
| "truthy (JNum r) = (r \<noteq> ''0'' \<and> r \<noteq> ''NaN'')"
| "truthy (JStr s) = (s \<noteq> [])"
| "truthy (JArr xs) = True"
| "truthy (JObj kvs) = True"

text \<open>\<^verbatim>\<open>a || b\<close>\<close>

definition js_or :: "jsval \<Rightarrow> jsval \<Rightarrow> jsval" where
  "js_or a b = (if truthy a then a else b)"

definition nullish :: "jsval \<Rightarrow> bool" where
  "nullish v = (v = JUndefined \<or> v = JNull)"

text \<open>
  \<^verbatim>\<open>o.k\<close> on a value that is not null or undefined, for the property names this code
  reads (none of them is a built-in property of strings, numbers, booleans or arrays).
\<close>

fun get_prop :: "jsval \<Rightarrow> string \<Rightarrow> jsval" where
  "get_prop (JObj kvs) k = (case map_of kvs k of None \<Rightarrow> JUndefined | Some v \<Rightarrow> v)"
| "get_prop _ k = JUndefined"

text \<open>\<^verbatim>\<open>o?.k\<close>\<close>

definition opt_chain :: "jsval \<Rightarrow> string \<Rightarrow> jsval" where
  "opt_chain v k = (if nullish v then JUndefined else get_prop v k)"

text \<open>\<^verbatim>\<open>{...data, k: v}\<close>: an existing key keeps its place and takes the new value.\<close>

definition obj_set :: "jsobject \<Rightarrow> string \<Rightarrow> jsval \<Rightarrow> jsobject" where
  "obj_set data k v = AList.update k v data"

fun join_comma :: "string list \<Rightarrow> string" where
  "join_comma [] = []"
| "join_comma [s] = s"
| "join_comma (s # t # ss) = s @ '','' @ join_comma (t # ss)"

text \<open>
  Interpolation into a template literal: \<^verbatim>\<open>`${v}`\<close>. The result is \<open>None\<close> when the
  conversion raises a TypeError: a parsed object that has a property \<open>toString\<close> of its
  own (never a function in parsed JSON) has no usable conversion; any other parsed object
  gives \<open>[object Object]\<close>. An array joins the conversions of its elements, null and
  undefined giving the empty string, and raises when one of them does.
\<close>

fun template_string :: "jsval \<Rightarrow> string option" where
  "template_string JUndefined = Some ''undefined''"
| "template_string JNull = Some ''null''"
| "template_string (JBool b) = Some (if b then ''true'' else ''false'')"
| "template_string (JNum r) = Some r"
| "template_string (JStr s) = Some s"
| "template_string (JArr xs) =
     map_option join_comma
       (those (map (\<lambda>x. if nullish x then Some [] else template_string x) xs))"
| "template_string (JObj kvs) =
     (if map_of kvs ''toString'' = None then Some ''[object Object]'' else None)"

datatype js_error = SyntaxError | TypeError

section \<open>The credential verifier (unifiedAuthService.js)\<close>

text \<open>The identity the credential verifier resolves a token to.\<close>

record user =
  user_id :: string
  user_email :: string
  user_tokenType :: string

text \<open>
  What a \<^verbatim>\<open>catch\<close> clause of the verifier inspects of an exception: its name, the status of
  the HTTP response it carries (if any), and whether it carries a request.
\<close>

record js_exn =
  exn_name :: string
  response_status :: "nat option"
  has_request :: bool





section \<open>The socket service (socketService.js)\<close>

type_synonym sid = string

record socket =
  userId :: "string option"
  userEmail :: "string option"
  tokenType :: "string option"
  connected :: bool

text \<open>
  The state of the \<^verbatim>\<open>SocketService\<close> singleton together with the socket.io server it
  drives: \<open>io\<close> says whether \<^verbatim>\<open>this.io\<close> has been set; \<open>sockets\<close> holds every socket
  object handed to the connection handler (socket.io's \<^verbatim>\<open>io.sockets.sockets\<close> is the
  connected ones among them); \<open>rooms\<close> is \<^verbatim>\<open>io.sockets.adapter.rooms\<close>; \<open>timers\<close> are the
  pending authentication timeouts; \<open>outbox\<close> records every emit call in order, as
  (socket id, event name, payload). User ids are strings, as the identity services issue
  them; \<^verbatim>\<open>sendToUser\<close> takes whatever value its caller read from a message or a request
  and interpolates it into the room name.
\<close>

record service =
  io :: bool
  sockets :: "(sid \<times> socket) list"
  rooms :: "string \<rightharpoonup> sid list"
  userConnections :: "(string \<times> sid list) list"
  offlineNotificationCount :: "jsval \<rightharpoonup> nat"
  timers :: "sid list"
  outbox :: "(sid \<times> string \<times> jsobject) list"

definition SocketService_new :: service where
  "SocketService_new =
     \<lparr>io = False, sockets = [], rooms = Map.empty, userConnections = [],
      offlineNotificationCount = Map.empty, timers = [], outbox = []\<rparr>"

definition socketService_initialize :: "service \<Rightarrow> service" where
  "socketService_initialize svc = svc\<lparr>io := True\<rparr>"

text \<open>\<^verbatim>\<open>Set.prototype.add\<close> on a set kept as a duplicate-free list.\<close>

definition set_add :: "'a list \<Rightarrow> 'a \<Rightarrow> 'a list" where
  "set_add xs x = (if x \<in> set xs then xs else xs @ [x])"

text \<open>\<^verbatim>\<open>if (s)\<close> for a field that is unset or a string.\<close>

definition truthy_str :: "string option \<Rightarrow> bool" where
  "truthy_str s = (case s of None \<Rightarrow> False | Some t \<Rightarrow> t \<noteq> [])"

subsection \<open>socket.io operations the service calls\<close>

definition socket_emit :: "service \<Rightarrow> sid \<Rightarrow> string \<Rightarrow> jsobject \<Rightarrow> service" where
  "socket_emit svc s ev data = svc\<lparr>outbox := outbox svc @ [(s, ev, data)]\<rparr>"

definition room_members :: "service \<Rightarrow> string \<Rightarrow> sid list" where
  "room_members svc room = (case rooms svc room of None \<Rightarrow> [] | Some ms \<Rightarrow> ms)"

text \<open>\<^verbatim>\<open>io.to(room).emit(ev, data)\<close>: one message to each member of the room.\<close>

definition room_emit :: "service \<Rightarrow> string \<Rightarrow> string \<Rightarrow> jsobject \<Rightarrow> service" where
  "room_emit svc room ev data =
     svc\<lparr>outbox := outbox svc @ map (\<lambda>s. (s, ev, data)) (room_members svc room)\<rparr>"

definition socket_join :: "service \<Rightarrow> sid \<Rightarrow> string \<Rightarrow> service" where
  "socket_join svc s room =
     svc\<lparr>rooms := (rooms svc)(room \<mapsto> set_add (room_members svc room) s)\<rparr>"

text \<open>On close a socket leaves every room, and a room left empty is dropped.\<close>

definition leave_all :: "sid \<Rightarrow> (string \<rightharpoonup> sid list) \<Rightarrow> (string \<rightharpoonup> sid list)" where
  "leave_all s rs =
     (\<lambda>room. case rs room of
        None \<Rightarrow> None
      | Some ms \<Rightarrow> (let ms' = removeAll s ms in if ms' = [] then None else Some ms'))"

subsection \<open>Connection lifecycle\<close>

text \<open>The registry's set for a user, empty for a user it does not hold.\<close>

definition listConnections :: "service \<Rightarrow> string \<Rightarrow> sid list" where
  "listConnections svc u = (case map_of (userConnections svc) u of None \<Rightarrow> [] | Some xs \<Rightarrow> xs)"

definition is_connected :: "service \<Rightarrow> sid \<Rightarrow> bool" where
  "is_connected svc s = (case map_of (sockets svc) s of None \<Rightarrow> False | Some sk \<Rightarrow> connected sk)"

definition handleDisconnect :: "service \<Rightarrow> sid \<Rightarrow> service" where
  "handleDisconnect svc s =
     (case map_of (sockets svc) s of
        None \<Rightarrow> svc
      | Some sk \<Rightarrow>
          (case userId sk of
             None \<Rightarrow> svc
           | Some u \<Rightarrow>
               if u = [] then svc
               else
                 (case map_of (userConnections svc) u of
                    None \<Rightarrow> svc
                  | Some userSockets \<Rightarrow>
                      (let userSockets' = removeAll s userSockets in
                       if length userSockets' = 0
                       then svc\<lparr>userConnections := AList.delete u (userConnections svc)\<rparr>
                       else svc\<lparr>userConnections :=
                                  AList.update u userSockets' (userConnections svc)\<rparr>))))"

text \<open>
  \<^verbatim>\<open>socket.disconnect()\<close>, and equally a close that the client or the transport starts:
  nothing on a socket already closed; otherwise the socket leaves its rooms and the
  \<^verbatim>\<open>disconnect\<close> handler runs.
\<close>

definition socket_disconnect :: "service \<Rightarrow> sid \<Rightarrow> service" where
  "socket_disconnect svc s =
     (case map_of (sockets svc) s of
        None \<Rightarrow> svc
      | Some sk \<Rightarrow>
          if \<not> connected sk then svc
          else handleDisconnect
                 (svc\<lparr>sockets := AList.update s (sk\<lparr>connected := False\<rparr>) (sockets svc),
                      rooms := leave_all s (rooms svc)\<rparr>) s)"

text \<open>The \<^verbatim>\<open>connection\<close> handler: a new socket object, and its authentication timer.\<close>

definition on_connection :: "service \<Rightarrow> sid \<Rightarrow> service" where
  "on_connection svc s =
     svc\<lparr>sockets := AList.update s
            \<lparr>userId = None, userEmail = None, tokenType = None, connected = True\<rparr> (sockets svc),
         timers := timers svc @ [s]\<rparr>"

text \<open>The callback of the 10 second timer.\<close>

definition auth_timeout :: "service \<Rightarrow> sid \<Rightarrow> service" where
  "auth_timeout svc s =
     (let svc1 = svc\<lparr>timers := remove1 s (timers svc)\<rparr> in
      case map_of (sockets svc1) s of
        None \<Rightarrow> svc1
      | Some sk \<Rightarrow>
          if \<not> truthy_str (userId sk)
          then socket_disconnect
                 (socket_emit svc1 s ''auth_error''
                    [(''message'', JStr ''Authentication timeout'')]) s
          else svc1)"

text \<open>
  \<^verbatim>\<open>authenticateSocket(socket, token)\<close>; \<open>outcome\<close> is what awaiting
  \<^verbatim>\<open>unifiedAuthService.verifyToken(token)\<close> gives: an exception, no user, or a user.
\<close>

definition authenticateSocket ::
  "service \<Rightarrow> sid \<Rightarrow> jsval \<Rightarrow> js_exn + user option \<Rightarrow> service" where
  "authenticateSocket svc s token outcome =
     (if \<not> truthy token
      then socket_emit svc s ''auth_error'' [(''message'', JStr ''Token required'')]
      else case outcome of
        Inl err \<Rightarrow>
          socket_disconnect
            (socket_emit svc s ''auth_error'' [(''message'', JStr ''Authentication failed'')]) s
      | Inr None \<Rightarrow>
          socket_disconnect
            (socket_emit svc s ''auth_error'' [(''message'', JStr ''Invalid or expired token'')]) s
      | Inr (Some usr) \<Rightarrow>
          (case map_of (sockets svc) s of
             None \<Rightarrow> svc
           | Some sk \<Rightarrow>
               (let svc1 = svc\<lparr>sockets := AList.update s
                                 (sk\<lparr>userId := Some (user_id usr),
                                     userEmail := Some (user_email usr),
                                     tokenType := Some (user_tokenType usr)\<rparr>) (sockets svc)\<rparr>;
                    svc2 = (if map_of (userConnections svc1) (user_id usr) = None
                            then svc1\<lparr>userConnections :=
                                        AList.update (user_id usr) [] (userConnections svc1)\<rparr>
                            else svc1);
                    svc3 = svc2\<lparr>userConnections :=
                                  AList.update (user_id usr)
                                    (set_add (listConnections svc2 (user_id usr)) s)
                                    (userConnections svc2)\<rparr>;
                    svc4 = socket_join svc3 s (''user:'' @ user_id usr)
                in socket_emit svc4 s ''authenticated''
                     [(''success'', JBool True), (''userId'', JStr (user_id usr)),
                      (''email'', JStr (user_email usr)),
                      (''tokenType'', JStr (user_tokenType usr))])))"

subsection \<open>Delivery\<close>

text \<open>
  \<^verbatim>\<open>sendToUser(userId, event, data)\<close>; \<open>now\<close> is \<^verbatim>\<open>new Date().toISOString()\<close>. The
  room name is built first and raises when the user id has no string conversion; with
  \<^verbatim>\<open>this.io\<close> unset the next property access raises.
\<close>

definition sendToUser ::
  "service \<Rightarrow> jsval \<Rightarrow> string \<Rightarrow> jsobject \<Rightarrow> string \<Rightarrow> js_error + (bool \<times> service)" where
  "sendToUser svc uid ev data now =
     (case template_string uid of
        None \<Rightarrow> Inl TypeError
      | Some uid_text \<Rightarrow>
          if \<not> io svc then Inl TypeError
          else
            (let room = ''user:'' @ uid_text;
                 socketCount = (case rooms svc room of None \<Rightarrow> 0 | Some ms \<Rightarrow> length ms)
             in if socketCount > 0
                then Inr (True,
                       (room_emit svc room ev (obj_set data ''timestamp'' (JStr now)))
                         \<lparr>offlineNotificationCount :=
                            (offlineNotificationCount svc)(uid := None)\<rparr>)
                else
                  (let currentCount =
                         (case offlineNotificationCount svc uid of None \<Rightarrow> 0 | Some c \<Rightarrow> c) + 1
                   in Inr (False,
                        svc\<lparr>offlineNotificationCount :=
                              (offlineNotificationCount svc)(uid \<mapsto> currentCount)\<rparr>))))"

record connection_count =
  total :: nat
  authenticated :: nat
  users :: nat

definition getConnectionCount :: "service \<Rightarrow> js_error + connection_count" where
  "getConnectionCount svc =
     (if \<not> io svc then Inl TypeError
      else Inr \<lparr>total = length (filter (\<lambda>(s, sk). connected sk) (sockets svc)),
                authenticated = length (userConnections svc),
                users = length (map fst (userConnections svc))\<rparr>)"


section \<open>Event-kind routing\<close>

subsection \<open>Broker path (eventConsumer.js)\<close>

definition broker_completed_payload :: "jsval \<Rightarrow> jsobject" where
  "broker_completed_payload eventData =
     [(''status'', JStr ''completed''),
      (''result_id'', get_prop eventData ''resultId''),
      (''assessment_name'',
         js_or (opt_chain (get_prop eventData ''metadata'') ''assessmentName'')
               (JStr ''Unknown Assessment''))]"

definition handleAnalysisCompleted :: "service \<Rightarrow> jsval \<Rightarrow> string \<Rightarrow> js_error + service" where
  "handleAnalysisCompleted svc eventData now =
     (case sendToUser svc (get_prop eventData ''userId'') ''analysis-complete''
             (broker_completed_payload eventData) now of
        Inl e \<Rightarrow> Inl e
      | Inr (sent, svc') \<Rightarrow> Inr svc')"

definition broker_failed_event :: "jsval \<Rightarrow> string" where
  "broker_failed_event eventData =
     (if opt_chain (get_prop eventData ''metadata'') ''errorType''
           = JStr ''UNSUPPORTED_ASSESSMENT_TYPE''
      then ''analysis-unknown'' else ''analysis-failed'')"

definition broker_failed_payload :: "jsval \<Rightarrow> jsobject" where
  "broker_failed_payload eventData =
     [(''status'', JStr ''failed''),
      (''result_id'', js_or (get_prop eventData ''resultId'') JNull),
      (''assessment_name'',
         js_or (opt_chain (get_prop eventData ''metadata'') ''assessmentName'')
               (JStr ''Unknown Assessment'')),
      (''error_message'', get_prop eventData ''errorMessage'')]"

definition handleAnalysisFailed :: "service \<Rightarrow> jsval \<Rightarrow> string \<Rightarrow> js_error + service" where
  "handleAnalysisFailed svc eventData now =
     (case sendToUser svc (get_prop eventData ''userId'') (broker_failed_event eventData)
             (broker_failed_payload eventData) now of
        Inl e \<Rightarrow> Inl e
      | Inr (sent, svc') \<Rightarrow> Inr svc')"

definition broker_started_payload :: "jsval \<Rightarrow> jsobject" where
  "broker_started_payload eventData =
     [(''jobId'', get_prop eventData ''jobId''),
      (''resultId'', js_or (get_prop eventData ''resultId'') JNull),
      (''status'', JStr ''processing''),
      (''assessment_name'',
         js_or (opt_chain (get_prop eventData ''metadata'') ''assessmentName'')
               (JStr ''Unknown Assessment'')),
      (''message'', JStr ''Your analysis has started processing...''),
      (''estimated_time'',
         js_or (opt_chain (get_prop eventData ''metadata'') ''estimatedProcessingTime'')
               (JStr ''1-3 minutes''))]"

definition handleAnalysisStarted :: "service \<Rightarrow> jsval \<Rightarrow> string \<Rightarrow> js_error + service" where
  "handleAnalysisStarted svc eventData now =
     (case sendToUser svc (get_prop eventData ''userId'') ''analysis-started''
             (broker_started_payload eventData) now of
        Inl e \<Rightarrow> Inl e
      | Inr (sent, svc') \<Rightarrow> Inr svc')"

text \<open>
  \<^verbatim>\<open>processEvent(eventData)\<close>: destructuring a null or undefined value raises; the
  \<^verbatim>\<open>switch\<close> compares with strict equality; an event type it does not list is only logged.
\<close>

definition processEvent :: "service \<Rightarrow> jsval \<Rightarrow> string \<Rightarrow> js_error + service" where
  "processEvent svc eventData now =
     (if nullish eventData then Inl TypeError
      else if get_prop eventData ''eventType'' = JStr ''analysis.completed''
        then handleAnalysisCompleted svc eventData now
      else if get_prop eventData ''eventType'' = JStr ''analysis.failed''
        then handleAnalysisFailed svc eventData now
      else if get_prop eventData ''eventType'' = JStr ''analysis.started''
        then handleAnalysisStarted svc eventData now
      else Inr svc)"

text \<open>
  A broker message; \<open>content_json\<close> is the outcome of
  \<^verbatim>\<open>JSON.parse(message.content.toString())\<close>, \<open>None\<close> when it throws.
\<close>

record message =
  content_json :: "jsval option"

text \<open>\<^verbatim>\<open>channel.ack(message)\<close> and \<^verbatim>\<open>channel.nack(message, allUpTo, requeue)\<close>.\<close>

datatype broker_reply = Ack | Nack bool bool

text \<open>
  The callback given to \<^verbatim>\<open>channel.consume\<close>. The broker passes null when it cancels the
  consumer. Reading \<^verbatim>\<open>eventData.eventType\<close> for the log raises on a null body. Every
  exception of the model is raised before the service state changes, so the state after
  a rejected message is the state before it.
\<close>

definition on_message ::
  "service \<Rightarrow> message option \<Rightarrow> string \<Rightarrow> service \<times> broker_reply list" where
  "on_message svc m now =
     (case m of
        None \<Rightarrow> (svc, [])
      | Some msg \<Rightarrow>
          (case (case content_json msg of
                   None \<Rightarrow> Inl SyntaxError
                 | Some eventData \<Rightarrow>
                     if nullish eventData then Inl TypeError
                     else processEvent svc eventData now) of
             Inr svc' \<Rightarrow> (svc', [Ack])
           | Inl e \<Rightarrow> (svc, [Nack False False])))"

subsection \<open>Webhook path (serviceAuth.js, validator.js, routes/notifications.js)\<close>

text \<open>
  A request as the three stages of a route read it: the two headers of the internal
  caller, the path within the router, and the body as the JSON body parser left it.
\<close>

record request =
  req_service_key :: "string option"
  req_internal_service :: "string option"
  req_path :: string
  req_body :: jsval

text \<open>
  \<^verbatim>\<open>serviceAuth\<close>: true when it calls \<^verbatim>\<open>next()\<close>, false when it answers 401. \<open>env_key\<close>
  is \<^verbatim>\<open>process.env.INTERNAL_SERVICE_KEY\<close>.
\<close>

definition serviceAuth :: "string option \<Rightarrow> request \<Rightarrow> bool" where
  "serviceAuth env_key req =
     (if \<not> truthy_str (req_service_key req) \<or> \<not> truthy_str (req_internal_service req)
      then False
      else if req_service_key req \<noteq> env_key then False
      else True)"

text \<open>
  The schemas of validator.js. The schema library is not part of the repository; its
  checks are modelled from its documented defaults: \<^verbatim>\<open>string()\<close> accepts a string that
  is not empty, \<^verbatim>\<open>valid(...)\<close> one of the listed strings, \<^verbatim>\<open>optional()\<close> also an absent
  value, \<^verbatim>\<open>object({...})\<close> an object with no key outside the schema (and an absent
  value). What \<^verbatim>\<open>uuid()\<close> accepts is the parameter \<open>is_uuid\<close>.
\<close>

definition joi_string :: "jsval \<Rightarrow> bool" where
  "joi_string v = (case v of JStr t \<Rightarrow> t \<noteq> [] | _ \<Rightarrow> False)"

definition joi_uuid :: "(string \<Rightarrow> bool) \<Rightarrow> jsval \<Rightarrow> bool" where
  "joi_uuid is_uuid v = (case v of JStr t \<Rightarrow> t \<noteq> [] \<and> is_uuid t | _ \<Rightarrow> False)"

definition joi_valid :: "string list \<Rightarrow> jsval \<Rightarrow> bool" where
  "joi_valid allowed v = (case v of JStr t \<Rightarrow> t \<in> set allowed | _ \<Rightarrow> False)"

definition joi_optional :: "(jsval \<Rightarrow> bool) \<Rightarrow> jsval \<Rightarrow> bool" where
  "joi_optional check v = (v = JUndefined \<or> check v)"

definition joi_object :: "string list \<Rightarrow> (jsval \<Rightarrow> bool) \<Rightarrow> jsval \<Rightarrow> bool" where
  "joi_object keys checks body =
     (case body of
        JUndefined \<Rightarrow> True
      | JObj kvs \<Rightarrow> list_all (\<lambda>k. k \<in> set keys) (map fst kvs) \<and> checks body
      | _ \<Rightarrow> False)"

definition analysisStartedSchema :: "(string \<Rightarrow> bool) \<Rightarrow> jsval \<Rightarrow> bool" where
  "analysisStartedSchema is_uuid =
     joi_object [''userId'', ''jobId'', ''status'', ''assessment_name'', ''message'']
       (\<lambda>b. joi_uuid is_uuid (get_prop b ''userId'') \<and>
            joi_uuid is_uuid (get_prop b ''jobId'') \<and>
            joi_valid [''processing'', ''started''] (get_prop b ''status'') \<and>
            joi_string (get_prop b ''assessment_name'') \<and>
            joi_optional joi_string (get_prop b ''message''))"

definition analysisCompleteSchema :: "(string \<Rightarrow> bool) \<Rightarrow> jsval \<Rightarrow> bool" where
  "analysisCompleteSchema is_uuid =
     joi_object [''userId'', ''jobId'', ''result_id'', ''status'', ''assessment_name'', ''message'']
       (\<lambda>b. joi_uuid is_uuid (get_prop b ''userId'') \<and>
            joi_uuid is_uuid (get_prop b ''jobId'') \<and>
            joi_uuid is_uuid (get_prop b ''result_id'') \<and>
            joi_valid [''berhasil'', ''completed'', ''success''] (get_prop b ''status'') \<and>
            joi_string (get_prop b ''assessment_name'') \<and>
            joi_optional joi_string (get_prop b ''message''))"

definition analysisFailedSchema :: "(string \<Rightarrow> bool) \<Rightarrow> jsval \<Rightarrow> bool" where
  "analysisFailedSchema is_uuid =
     joi_object [''userId'', ''jobId'', ''status'', ''assessment_name'', ''error_message'',
                 ''message'']
       (\<lambda>b. joi_uuid is_uuid (get_prop b ''userId'') \<and>
            joi_uuid is_uuid (get_prop b ''jobId'') \<and>
            joi_valid [''gagal'', ''failed'', ''error''] (get_prop b ''status'') \<and>
            joi_string (get_prop b ''assessment_name'') \<and>
            joi_string (get_prop b ''error_message'') \<and>
            joi_optional joi_string (get_prop b ''message''))"

definition analysisUnknownSchema :: "(string \<Rightarrow> bool) \<Rightarrow> jsval \<Rightarrow> bool" where
  "analysisUnknownSchema is_uuid =
     joi_object [''userId'', ''jobId'', ''status'', ''assessment_name'', ''error_message'',
                 ''message'']
       (\<lambda>b. joi_uuid is_uuid (get_prop b ''userId'') \<and>
            joi_uuid is_uuid (get_prop b ''jobId'') \<and>
            joi_valid [''gagal'', ''failed'', ''error'', ''unknown''] (get_prop b ''status'') \<and>
            joi_string (get_prop b ''assessment_name'') \<and>
            joi_string (get_prop b ''error_message'') \<and>
            joi_optional joi_string (get_prop b ''message''))"

text \<open>
  \<^verbatim>\<open>validateNotification\<close>: the schema is chosen by the request path, and a path it does
  not list is passed on unchecked. \<open>Inl 400\<close> is the error response, \<open>Inr\<close> the body
  handed to the route.
\<close>

definition validateNotification :: "(string \<Rightarrow> bool) \<Rightarrow> request \<Rightarrow> nat + jsval" where
  "validateNotification is_uuid req =
     (if req_path req = ''/analysis-started''
        then (if analysisStartedSchema is_uuid (req_body req) then Inr (req_body req) else Inl 400)
      else if req_path req = ''/analysis-complete''
        then (if analysisCompleteSchema is_uuid (req_body req) then Inr (req_body req) else Inl 400)
      else if req_path req = ''/analysis-failed''
        then (if analysisFailedSchema is_uuid (req_body req) then Inr (req_body req) else Inl 400)
      else if req_path req = ''/analysis-unknown''
        then (if analysisUnknownSchema is_uuid (req_body req) then Inr (req_body req) else Inl 400)
      else Inr (req_body req))"

definition webhook_started_payload :: "jsval \<Rightarrow> jsobject" where
  "webhook_started_payload body =
     [(''jobId'', get_prop body ''jobId''),
      (''status'', get_prop body ''status''),
      (''assessment_name'', get_prop body ''assessment_name''),
      (''message'', js_or (get_prop body ''message'') (JStr ''Analysis processing started...''))]"



text \<open>
  A route as it is mounted: \<^verbatim>\<open>serviceAuth\<close> (401), then \<^verbatim>\<open>validateNotification\<close> (400),
  then the handler, whose \<^verbatim>\<open>catch\<close> answers 500. The result is the HTTP status and the
  new state.
\<close>

definition webhook_route ::
  "string \<Rightarrow> (jsval \<Rightarrow> jsobject) \<Rightarrow> string option \<Rightarrow> (string \<Rightarrow> bool) \<Rightarrow>
   service \<Rightarrow> request \<Rightarrow> string \<Rightarrow> nat \<times> service" where
  "webhook_route ev payload env_key is_uuid svc req now =
     (if \<not> serviceAuth env_key req then (401, svc)
      else case validateNotification is_uuid req of
        Inl status \<Rightarrow> (status, svc)
      | Inr body \<Rightarrow>
          if nullish body then (500, svc)
          else case sendToUser svc (get_prop body ''userId'') ev (payload body) now of
                 Inl e \<Rightarrow> (500, svc)
               | Inr (sent, svc') \<Rightarrow> (200, svc'))"

definition post_analysis_started ::
  "string option \<Rightarrow> (string \<Rightarrow> bool) \<Rightarrow> service \<Rightarrow> request \<Rightarrow> string \<Rightarrow> nat \<times> service" where
  "post_analysis_started = webhook_route ''analysis-started'' webhook_started_payload"




section \<open>The broker connection (config/rabbitmq.js) and the consumer's status\<close>



















section \<open>Reachable states of the socket service\<close>

text \<open>
  The states the service can be in after \<^verbatim>\<open>initialize(io)\<close>: a connection arrives with a
  socket id not seen before; a connected socket sends \<^verbatim>\<open>authenticate\<close> and the verifier
  answers; a socket closes, from either side; a pending authentication timer fires; a
  notification is sent. Each handler runs to its end before the next event: the wait for
  the verifier is not interleaved with other events.
\<close>

inductive reachable :: "service \<Rightarrow> bool" where
  start: "reachable (socketService_initialize SocketService_new)"
| connection:
    "reachable svc \<Longrightarrow> map_of (sockets svc) s = None \<Longrightarrow> reachable (on_connection svc s)"
| authenticate:
    "reachable svc \<Longrightarrow> is_connected svc s \<Longrightarrow> reachable (authenticateSocket svc s token outcome)"
| disconnect:
    "reachable svc \<Longrightarrow> reachable (socket_disconnect svc s)"
| timeout:
    "reachable svc \<Longrightarrow> s \<in> set (timers svc) \<Longrightarrow> reachable (auth_timeout svc s)"
| deliver:
    "reachable svc \<Longrightarrow> sendToUser svc uid ev data now = Inr (sent, svc') \<Longrightarrow> reachable svc'"

text \<open>The signal the timer sends, and how many of them a socket has been sent.\<close>

definition timeout_signal :: "sid \<Rightarrow> sid \<times> string \<times> jsobject" where
  "timeout_signal s = (s, ''auth_error'', [(''message'', JStr ''Authentication timeout'')])"

definition timeout_signals :: "service \<Rightarrow> sid \<Rightarrow> nat" where
  "timeout_signals svc s = count_list (outbox svc) (timeout_signal s)"

text \<open>The open connections registered for a user.\<close>

definition live_connections :: "service \<Rightarrow> string \<Rightarrow> sid list" where
  "live_connections svc u = filter (is_connected svc) (listConnections svc u)"

text \<open>
  What every reachable state satisfies: the socket.io server is attached; a user's room
  holds exactly the open sockets registered for the user; rooms hold open sockets only
  and hold each once; every registered socket is a socket the service has seen; the
  registry has one entry per user id.
\<close>

definition registry_inv :: "service \<Rightarrow> bool" where
  "registry_inv svc \<longleftrightarrow>
     io svc \<and>
     (\<forall>u s. (s \<in> set (room_members svc (''user:'' @ u))) =
            (s \<in> set (listConnections svc u) \<and> is_connected svc s)) \<and>
     (\<forall>room s. s \<in> set (room_members svc room) \<longrightarrow> is_connected svc s) \<and>
     (\<forall>room. distinct (room_members svc room)) \<and>
     (\<forall>u s. s \<in> set (listConnections svc u) \<longrightarrow> map_of (sockets svc) s \<noteq> None) \<and>
     distinct (map fst (userConnections svc))"


text \<open>
  What every reachable state satisfies about timers and signals: a pending timer and a
  sent signal belong to a socket the service has seen, and for each socket the timeout
  signals sent and the timers pending together number at most one.
\<close>

definition timer_inv :: "service \<Rightarrow> bool" where
  "timer_inv svc \<longleftrightarrow>
     (\<forall>s. map_of (sockets svc) s = None \<longrightarrow> s \<notin> set (timers svc)) \<and>
     (\<forall>s. map_of (sockets svc) s = None \<longrightarrow> s \<notin> fst ` set (outbox svc)) \<and>
     (\<forall>s. timeout_signals svc s + count_list (timers svc) s \<le> 1)"


section \<open>Example states\<close>

definition alice :: user where
  "alice = \<lparr>user_id = ''u1'', user_email = ''alice@example.org'', user_tokenType = ''jwt''\<rparr>"

definition bob :: user where
  "bob = \<lparr>user_id = ''u2'', user_email = ''bob@example.org'', user_tokenType = ''firebase''\<rparr>"

definition demo_connected :: service where
  "demo_connected = on_connection (socketService_initialize SocketService_new) ''s1''"

definition demo_one_device :: service where
  "demo_one_device = authenticateSocket demo_connected ''s1'' (JStr ''tokenA'') (Inr (Some alice))"

definition demo_two_devices :: service where
  "demo_two_devices =
     authenticateSocket (on_connection demo_one_device ''s2'') ''s2'' (JStr ''tokenA'') (Inr (Some alice))"


text \<open>A socket that authenticates as one user, then as another, then closes.\<close>

definition demo_reauth_closed :: service where
  "demo_reauth_closed =
     socket_disconnect
       (authenticateSocket demo_one_device ''s1'' (JStr ''tokenB'') (Inr (Some bob))) ''s1''"



definition heartbeat_event :: jsval where
  "heartbeat_event =
     JObj [(''eventType'', JStr ''analysis.progress''), (''userId'', JStr ''u1''),
           (''jobId'', JStr ''j1'')]"


text \<open>
  One format the UUID check accepts, used as the check in the examples: hexadecimal
  digits in groups of 8, 4, 4, 4 and 12.
\<close>

fun matches_uuid :: "string \<Rightarrow> string \<Rightarrow> bool" where
  "matches_uuid [] [] = True"
| "matches_uuid (p # ps) (c # cs) =
     ((if p = CHR ''-'' then c = CHR ''-'' else c \<in> set ''0123456789abcdefABCDEF'') \<and>
      matches_uuid ps cs)"
| "matches_uuid _ _ = False"

definition hyphenated_uuid :: "string \<Rightarrow> bool" where
  "hyphenated_uuid t = matches_uuid ''xxxxxxxx-xxxx-xxxx-xxxx-xxxxxxxxxxxx'' t"









section \<open>Effects of the handlers on the state\<close>

subsection \<open>Registry, rooms and sockets\<close>

lemma listConnections_update:
  "listConnections (svc\<lparr>userConnections := AList.update k v (userConnections svc)\<rparr>) u =
     (if u = k then v else listConnections svc u)"
  by (simp add: listConnections_def update_conv')

lemma listConnections_delete:
  "listConnections (svc\<lparr>userConnections := AList.delete k (userConnections svc)\<rparr>) u =
     (if u = k then [] else listConnections svc u)"
  by (simp add: listConnections_def delete_conv')

lemma removeAll_Nil_iff: "removeAll s xs = [] \<Longrightarrow> x \<in> set xs \<Longrightarrow> x = s"
proof -
  assume a: "removeAll s xs = []" and b: "x \<in> set xs"
  have "set (removeAll s xs) = set xs - {s}" by simp
  with a b show "x = s" by auto
qed

lemma listConnections_cong_simps [simp]:
  "listConnections (svc\<lparr>sockets := a\<rparr>) = listConnections svc"
  "listConnections (svc\<lparr>rooms := b\<rparr>) = listConnections svc"
  "listConnections (svc\<lparr>timers := c\<rparr>) = listConnections svc"
  "listConnections (svc\<lparr>outbox := d\<rparr>) = listConnections svc"
  "listConnections (svc\<lparr>offlineNotificationCount := e\<rparr>) = listConnections svc"
  by (simp_all add: listConnections_def fun_eq_iff)

lemma is_connected_cong_simps [simp]:
  "is_connected (svc\<lparr>userConnections := a\<rparr>) = is_connected svc"
  "is_connected (svc\<lparr>rooms := b\<rparr>) = is_connected svc"
  "is_connected (svc\<lparr>timers := c\<rparr>) = is_connected svc"
  "is_connected (svc\<lparr>outbox := d\<rparr>) = is_connected svc"
  "is_connected (svc\<lparr>offlineNotificationCount := e\<rparr>) = is_connected svc"
  by (simp_all add: is_connected_def fun_eq_iff)

lemma room_members_cong_simps [simp]:
  "room_members (svc\<lparr>userConnections := a\<rparr>) = room_members svc"
  "room_members (svc\<lparr>sockets := b\<rparr>) = room_members svc"
  "room_members (svc\<lparr>timers := c\<rparr>) = room_members svc"
  "room_members (svc\<lparr>outbox := d\<rparr>) = room_members svc"
  "room_members (svc\<lparr>offlineNotificationCount := e\<rparr>) = room_members svc"
  by (simp_all add: room_members_def fun_eq_iff)

lemma handleDisconnect_fields [simp]:
  "sockets (handleDisconnect svc s) = sockets svc"
  "rooms (handleDisconnect svc s) = rooms svc"
  "timers (handleDisconnect svc s) = timers svc"
  "outbox (handleDisconnect svc s) = outbox svc"
  "io (handleDisconnect svc s) = io svc"
  "offlineNotificationCount (handleDisconnect svc s) = offlineNotificationCount svc"
  by (simp_all add: handleDisconnect_def Let_def split: option.splits)

lemma handleDisconnect_listConnections:
  "set (listConnections (handleDisconnect svc s) u) =
     (case map_of (sockets svc) s of
        None \<Rightarrow> set (listConnections svc u)
      | Some sk \<Rightarrow> if userId sk = Some u \<and> u \<noteq> [] then set (listConnections svc u) - {s}
                   else set (listConnections svc u))"
  by (auto simp add: handleDisconnect_def Let_def listConnections_update listConnections_delete
      split: option.splits) (auto simp: listConnections_def dest: removeAll_Nil_iff split: option.splits)

lemma handleDisconnect_distinct:
  "distinct (map fst (userConnections svc)) \<Longrightarrow> distinct (map fst (userConnections (handleDisconnect svc s)))"
  by (simp add: handleDisconnect_def Let_def distinct_update distinct_delete split: option.splits)

lemma socket_disconnect_fields [simp]:
  "timers (socket_disconnect svc s) = timers svc"
  "outbox (socket_disconnect svc s) = outbox svc"
  "io (socket_disconnect svc s) = io svc"
  "offlineNotificationCount (socket_disconnect svc s) = offlineNotificationCount svc"
  by (simp_all add: socket_disconnect_def split: option.splits)

lemma socket_disconnect_socket_exists:
  "(map_of (sockets (socket_disconnect svc s)) s' = None) = (map_of (sockets svc) s' = None)"
  by (auto simp add: socket_disconnect_def update_conv' split: option.splits)

lemma socket_disconnect_is_connected:
  "is_connected (socket_disconnect svc s) s' = (is_connected svc s' \<and> s' \<noteq> s)"
  by (auto simp add: socket_disconnect_def is_connected_def update_conv' split: option.splits)

lemma socket_disconnect_room_members:
  "set (room_members (socket_disconnect svc s) room) =
     (if is_connected svc s then set (room_members svc room) - {s} else set (room_members svc room))"
  by (auto simp add: socket_disconnect_def is_connected_def room_members_def leave_all_def Let_def
      dest: removeAll_Nil_iff split: option.splits)

lemma socket_disconnect_listConnections_other:
  "s' \<noteq> s \<Longrightarrow> (s' \<in> set (listConnections (socket_disconnect svc s) u)) = (s' \<in> set (listConnections svc u))"
  by (auto simp add: socket_disconnect_def handleDisconnect_listConnections update_conv' 
      split: option.splits if_splits)

lemma socket_disconnect_distinct:
  "distinct (map fst (userConnections svc)) \<Longrightarrow> distinct (map fst (userConnections (socket_disconnect svc s)))"
  by (auto simp add: socket_disconnect_def handleDisconnect_distinct split: option.splits)


lemma socket_emit_fields [simp]:
  "timers (socket_emit svc s ev d) = timers svc"
  "outbox (socket_emit svc s ev d) = outbox svc @ [(s, ev, d)]"
  "io (socket_emit svc s ev d) = io svc"
  "sockets (socket_emit svc s ev d) = sockets svc"
  "rooms (socket_emit svc s ev d) = rooms svc"
  "userConnections (socket_emit svc s ev d) = userConnections svc"
  "offlineNotificationCount (socket_emit svc s ev d) = offlineNotificationCount svc"
  "listConnections (socket_emit svc s ev d) = listConnections svc"
  "is_connected (socket_emit svc s ev d) = is_connected svc"
  "room_members (socket_emit svc s ev d) = room_members svc"
  by (simp_all add: socket_emit_def)

lemma authenticateSocket_missing:
  "\<not> truthy token \<Longrightarrow> authenticateSocket svc s token outcome =
     socket_emit svc s ''auth_error'' [(''message'', JStr ''Token required'')]"
  by (simp add: authenticateSocket_def)

lemma authenticateSocket_rejected:
  "truthy token \<Longrightarrow> authenticateSocket svc s token (Inr None) =
     socket_disconnect
       (socket_emit svc s ''auth_error'' [(''message'', JStr ''Invalid or expired token'')]) s"
  by (simp add: authenticateSocket_def)

lemma authenticateSocket_raised:
  "truthy token \<Longrightarrow> authenticateSocket svc s token (Inl e) =
     socket_disconnect
       (socket_emit svc s ''auth_error'' [(''message'', JStr ''Authentication failed'')]) s"
  by (simp add: authenticateSocket_def)

lemma auth_ok_fields [simp]:
  "timers (authenticateSocket svc s token (Inr (Some usr))) = timers svc"
  "io (authenticateSocket svc s token (Inr (Some usr))) = io svc"
  "offlineNotificationCount (authenticateSocket svc s token (Inr (Some usr))) = offlineNotificationCount svc"
  by (simp_all add: authenticateSocket_def Let_def socket_join_def split: option.splits)

lemma auth_ok_outbox:
  "truthy token \<Longrightarrow> outbox (authenticateSocket svc s token (Inr (Some usr))) = (if map_of (sockets svc) s = None then outbox svc else outbox svc @
      [(s, ''authenticated'', [(''success'', JBool True), (''userId'', JStr (user_id usr)),
                      (''email'', JStr (user_email usr)),
                      (''tokenType'', JStr (user_tokenType usr))])])"
  by (simp add: authenticateSocket_def Let_def socket_join_def split: option.splits)

lemma auth_ok_socket_exists:
  "(map_of (sockets (authenticateSocket svc s token (Inr (Some usr)))) s' = None) = (map_of (sockets svc) s' = None)"
  by (auto simp add: authenticateSocket_def Let_def socket_join_def update_conv' split: option.splits)

lemma auth_ok_is_connected:
  "is_connected (authenticateSocket svc s token (Inr (Some usr))) s' = is_connected svc s'"
  by (auto simp add: authenticateSocket_def Let_def socket_join_def update_conv' is_connected_def split: option.splits)

lemma auth_ok_listConnections:
  "truthy token \<Longrightarrow> map_of (sockets svc) s \<noteq> None \<Longrightarrow> listConnections (authenticateSocket svc s token (Inr (Some usr))) u =
     (if u = user_id usr then set_add (listConnections svc u) s else listConnections svc u)"
  by (auto simp add: authenticateSocket_def Let_def socket_join_def listConnections_update 
       split: option.splits) (auto simp: listConnections_def update_conv')

lemma auth_ok_room_members:
  "truthy token \<Longrightarrow> map_of (sockets svc) s \<noteq> None \<Longrightarrow> room_members (authenticateSocket svc s token (Inr (Some usr))) room =
     (if room = ''user:'' @ user_id usr then set_add (room_members svc room) s else room_members svc room)"
  by (auto simp add: authenticateSocket_def Let_def socket_join_def 
       split: option.splits) (auto simp: room_members_def)

lemma auth_ok_distinct:
  "distinct (map fst (userConnections svc)) \<Longrightarrow> distinct (map fst (userConnections (authenticateSocket svc s token (Inr (Some usr)))))"
  by (auto simp add: authenticateSocket_def Let_def socket_join_def distinct_update split: option.splits)

lemma set_set_add [simp]: "set (set_add xs x) = insert x (set xs)"
  by (auto simp: set_add_def)

lemma distinct_set_add [simp]: "distinct (set_add xs x) = distinct xs"
  by (auto simp: set_add_def)


lemma socket_disconnect_room_distinct:
  "distinct (room_members svc room) \<Longrightarrow> distinct (room_members (socket_disconnect svc s) room)"
  by (auto simp add: socket_disconnect_def room_members_def leave_all_def Let_def distinct_removeAll
      split: option.splits)

lemma socket_disconnect_listConnections_subset:
  "s' \<in> set (listConnections (socket_disconnect svc s) u) \<Longrightarrow> s' \<in> set (listConnections svc u)"
  by (auto simp add: socket_disconnect_def handleDisconnect_listConnections update_conv' 
      split: option.splits if_splits)

lemma registry_inv_start: "registry_inv (socketService_initialize SocketService_new)"
  by (simp add: registry_inv_def socketService_initialize_def SocketService_new_def
      room_members_def listConnections_def)

lemma is_connected_exists: "is_connected svc s \<Longrightarrow> map_of (sockets svc) s \<noteq> None"
  by (auto simp: is_connected_def split: option.splits)

lemma registry_inv_disconnect:
  assumes "registry_inv svc" shows "registry_inv (socket_disconnect svc s)"
  unfolding registry_inv_def
proof (intro conjI allI impI)
  show "io (socket_disconnect svc s)" using assms by (simp add: registry_inv_def)
next
  fix u s'
  show "(s' \<in> set (room_members (socket_disconnect svc s) (''user:'' @ u))) =
        (s' \<in> set (listConnections (socket_disconnect svc s) u) \<and> is_connected (socket_disconnect svc s) s')"
  proof (cases "s' = s")
    case True
    then show ?thesis using assms
      by (auto simp: socket_disconnect_room_members socket_disconnect_is_connected registry_inv_def)
  next
    case False
    then show ?thesis using assms
      by (auto simp: socket_disconnect_room_members socket_disconnect_is_connected
          socket_disconnect_listConnections_other registry_inv_def)
  qed
next
  fix room s' assume "s' \<in> set (room_members (socket_disconnect svc s) room)"
  then show "is_connected (socket_disconnect svc s) s'" using assms
    by (auto simp: socket_disconnect_room_members socket_disconnect_is_connected registry_inv_def
        split: if_splits)
next
  fix room show "distinct (room_members (socket_disconnect svc s) room)"
    using assms by (simp add: socket_disconnect_room_distinct registry_inv_def)
next
  fix u s' assume "s' \<in> set (listConnections (socket_disconnect svc s) u)"
  then show "map_of (sockets (socket_disconnect svc s)) s' \<noteq> None"
    using assms socket_disconnect_listConnections_subset[of s' svc s u]
    by (simp add: socket_disconnect_socket_exists registry_inv_def)
next
  show "distinct (map fst (userConnections (socket_disconnect svc s)))"
    using assms by (simp add: socket_disconnect_distinct registry_inv_def)
qed

lemma registry_inv_emit:
  "registry_inv (socket_emit svc s ev d) = registry_inv svc"
  by (simp add: registry_inv_def)

lemma registry_inv_timers:
  "registry_inv (svc\<lparr>timers := t\<rparr>) = registry_inv svc"
  by (simp add: registry_inv_def)

lemma registry_inv_connection:
  assumes "registry_inv svc" "map_of (sockets svc) s = None"
  shows "registry_inv (on_connection svc s)"
proof -
  have c: "\<And>s'. is_connected (on_connection svc s) s' = (s' = s \<or> is_connected svc s')"
    by (auto simp: on_connection_def is_connected_def update_conv')
  have l: "listConnections (on_connection svc s) = listConnections svc"
    by (simp add: on_connection_def)
  have r: "room_members (on_connection svc s) = room_members svc"
    by (simp add: on_connection_def)
  have e: "\<And>s'. (map_of (sockets (on_connection svc s)) s' \<noteq> None) = (s' = s \<or> map_of (sockets svc) s' \<noteq> None)"
    by (auto simp: on_connection_def update_conv')
  have nl: "s \<notin> set (listConnections svc u)" for u
  proof
    assume "s \<in> set (listConnections svc u)"
    then have "map_of (sockets svc) s \<noteq> None"
      using assms(1) unfolding registry_inv_def by blast
    with assms(2) show False by simp
  qed
  have n: "\<not> is_connected svc s" using assms(2) by (simp add: is_connected_def)
  have u: "userConnections (on_connection svc s) = userConnections svc" "io (on_connection svc s) = io svc"
    by (simp_all add: on_connection_def)
  show ?thesis using assms(1) n nl unfolding registry_inv_def c l r u e
    by auto
qed

lemma registry_inv_auth_ok:
  assumes "registry_inv svc" "is_connected svc s" "truthy token"
  shows "registry_inv (authenticateSocket svc s token (Inr (Some usr)))"
proof -
  have ex: "map_of (sockets svc) s \<noteq> None" using assms(2) by (rule is_connected_exists)
  show ?thesis using assms ex unfolding registry_inv_def
    by (auto simp: auth_ok_is_connected auth_ok_listConnections auth_ok_room_members
        auth_ok_socket_exists auth_ok_distinct)
qed

lemma registry_inv_authenticate:
  assumes "registry_inv svc" "is_connected svc s"
  shows "registry_inv (authenticateSocket svc s token outcome)"
proof (cases "truthy token")
  case False
  then show ?thesis using assms by (simp add: authenticateSocket_missing registry_inv_emit)
next
  case True
  show ?thesis
  proof (cases outcome)
    case (Inl e)
    then show ?thesis using True assms
      by (simp add: authenticateSocket_raised registry_inv_disconnect registry_inv_emit)
  next
    case (Inr r)
    then show ?thesis using True assms
      by (cases r) (simp_all add: authenticateSocket_rejected registry_inv_disconnect
          registry_inv_emit registry_inv_auth_ok)
  qed
qed

lemma registry_inv_timeout:
  assumes "registry_inv svc" shows "registry_inv (auth_timeout svc s)"
  using assms
  by (simp add: auth_timeout_def Let_def registry_inv_disconnect registry_inv_emit registry_inv_timers
      split: option.splits)

lemma sendToUser_fields:
  assumes "sendToUser svc uid ev d now = Inr (sent, svc')"
  shows "sockets svc' = sockets svc" "rooms svc' = rooms svc"
    "userConnections svc' = userConnections svc" "timers svc' = timers svc" "io svc' = io svc"
  using assms by (auto simp: sendToUser_def Let_def room_emit_def split: if_splits option.splits)

lemma registry_inv_deliver:
  assumes "registry_inv svc" "sendToUser svc uid ev d now = Inr (sent, svc')"
  shows "registry_inv svc'"
  using assms(1) sendToUser_fields[OF assms(2)]
  by (simp add: registry_inv_def room_members_def listConnections_def is_connected_def)

lemma reachable_registry_inv: "reachable svc \<Longrightarrow> registry_inv svc"
  by (induction rule: reachable.induct)
    (simp_all add: registry_inv_start registry_inv_connection registry_inv_authenticate
      registry_inv_disconnect registry_inv_timeout registry_inv_deliver)

subsection \<open>The example states\<close>

lemma reachable_demo_connected: "reachable demo_connected"
  unfolding demo_connected_def
  by (rule reachable.connection, rule reachable.start)
     (simp add: socketService_initialize_def SocketService_new_def)

lemma demo_connected_eval:
  "demo_connected = \<lparr>io = True, sockets = [(''s1'', \<lparr>userId = None, userEmail = None, tokenType = None, connected = True\<rparr>)],
     rooms = Map.empty, userConnections = [], offlineNotificationCount = Map.empty, timers = [''s1''], outbox = []\<rparr>"
  by (simp add: demo_connected_def on_connection_def socketService_initialize_def SocketService_new_def)

lemma demo_one_device_eval:
  "demo_one_device = \<lparr>io = True, sockets = [(''s1'', \<lparr>userId = Some ''u1'', userEmail = Some ''alice@example.org'', tokenType = Some ''jwt'', connected = True\<rparr>)],
     rooms = [''user:u1'' \<mapsto> [''s1'']], userConnections = [(''u1'', [''s1''])], offlineNotificationCount = Map.empty, timers = [''s1''], 
     outbox = [(''s1'', ''authenticated'', [(''success'', JBool True), (''userId'', JStr ''u1''),
                      (''email'', JStr ''alice@example.org''), (''tokenType'', JStr ''jwt'')])]\<rparr>"
  by (simp add: demo_one_device_def demo_connected_eval authenticateSocket_def alice_def Let_def
       socket_join_def socket_emit_def listConnections_def set_add_def room_members_def)

lemma reachable_demo_one_device: "reachable demo_one_device"
  unfolding demo_one_device_def
  by (rule reachable.authenticate, rule reachable_demo_connected)
     (simp add: demo_connected_eval is_connected_def)

lemma demo_two_devices_eval:
  "demo_two_devices = \<lparr>io = True, sockets = [(''s1'', \<lparr>userId = Some ''u1'', userEmail = Some ''alice@example.org'', tokenType = Some ''jwt'', connected = True\<rparr>),
       (''s2'', \<lparr>userId = Some ''u1'', userEmail = Some ''alice@example.org'', tokenType = Some ''jwt'', connected = True\<rparr>)],
     rooms = [''user:u1'' \<mapsto> [''s1'', ''s2'']], userConnections = [(''u1'', [''s1'', ''s2''])], offlineNotificationCount = Map.empty, timers = [''s1'', ''s2''], 
     outbox = [(''s1'', ''authenticated'', [(''success'', JBool True), (''userId'', JStr ''u1''),
                      (''email'', JStr ''alice@example.org''), (''tokenType'', JStr ''jwt'')]),
               (''s2'', ''authenticated'', [(''success'', JBool True), (''userId'', JStr ''u1''),
                      (''email'', JStr ''alice@example.org''), (''tokenType'', JStr ''jwt'')])]\<rparr>"
  by (simp add: demo_two_devices_def demo_one_device_eval authenticateSocket_def alice_def Let_def on_connection_def
       socket_join_def socket_emit_def listConnections_def set_add_def room_members_def)

lemma reachable_demo_two_devices: "reachable demo_two_devices"
  unfolding demo_two_devices_def
  apply (rule reachable.authenticate)
   apply (rule reachable.connection)
    apply (rule reachable_demo_one_device)
   apply (simp add: demo_one_device_eval)
  apply (simp add: demo_one_device_eval on_connection_def is_connected_def)
  done

lemma live_room:
  assumes "registry_inv svc"
  shows "set (room_members svc (''user:'' @ u)) = set (live_connections svc u)"
  using assms by (auto simp: registry_inv_def live_connections_def)

lemma sendToUser_by_room:
  "io svc \<Longrightarrow> template_string uid = Some r \<Longrightarrow> sendToUser svc uid ev d now =
     (if room_members svc (''user:'' @ r) \<noteq> []
      then Inr (True, (room_emit svc (''user:'' @ r) ev (obj_set d ''timestamp'' (JStr now)))
                     \<lparr>offlineNotificationCount := (offlineNotificationCount svc)(uid := None)\<rparr>)
      else Inr (False, svc\<lparr>offlineNotificationCount := (offlineNotificationCount svc)(uid \<mapsto>
              (case offlineNotificationCount svc uid of None \<Rightarrow> 0 | Some c \<Rightarrow> c) + 1)\<rparr>))"
  by (auto simp: sendToUser_def Let_def room_members_def split: option.splits)


subsection \<open>Closing, failing and timing out\<close>


lemma auth_timeout_unauthenticated:
  "map_of (sockets svc) s = Some sk \<Longrightarrow> \<not> truthy_str (userId sk) \<Longrightarrow>
   auth_timeout svc s =
     socket_disconnect (socket_emit (svc\<lparr>timers := remove1 s (timers svc)\<rparr>) s ''auth_error''
                    [(''message'', JStr ''Authentication timeout'')]) s"
  by (simp add: auth_timeout_def Let_def)

lemma auth_timeout_authenticated:
  "map_of (sockets svc) s = Some sk \<Longrightarrow> truthy_str (userId sk) \<Longrightarrow>
   auth_timeout svc s = svc\<lparr>timers := remove1 s (timers svc)\<rparr>"
  by (simp add: auth_timeout_def Let_def)

lemma auth_timeout_timers: "timers (auth_timeout svc s) = remove1 s (timers svc)"
  by (simp add: auth_timeout_def Let_def split: option.splits)

lemma authenticateSocket_timers: "timers (authenticateSocket svc s token outcome) = timers svc"
  by (simp add: authenticateSocket_def Let_def socket_join_def split: sum.splits option.splits)

lemma handleDisconnect_keeps_others:
  "s' \<noteq> s \<Longrightarrow>
   (s' \<in> set (listConnections (handleDisconnect svc s) u)) = (s' \<in> set (listConnections svc u))"
  by (auto simp: handleDisconnect_listConnections split: option.splits)

lemma handleDisconnect_last:
  assumes "map_of (sockets svc) s = Some sk" and "userId sk = Some u" and "u \<noteq> []"
    and "map_of (userConnections svc) u = Some [s]"
  shows "map_of (userConnections (handleDisconnect svc s)) u = None"
  using assms by (simp add: handleDisconnect_def delete_conv')

lemma handleDisconnect_idempotent:
  "handleDisconnect (handleDisconnect svc s) s = handleDisconnect svc s"
  by (auto simp: handleDisconnect_def Let_def update_conv' delete_conv' split: option.splits)

subsection \<open>Timers and timeout signals\<close>

lemma count_list_remove1:
  "count_list (remove1 x xs) y = (if x = y \<and> x \<in> set xs then count_list xs y - 1 else count_list xs y)"
  by (induction xs) auto

lemma count_list_pos: "x \<in> set xs \<Longrightarrow> 0 < count_list xs x"
  by (induction xs) auto

lemma timeout_signals_emit:
  "timeout_signals (socket_emit svc s ev d) s' =
     timeout_signals svc s' + (if (s, ev, d) = timeout_signal s' then 1 else 0)"
  by (simp add: timeout_signals_def)

lemma timeout_signals_simps [simp]:
  "timeout_signals (svc\<lparr>timers := t\<rparr>) = timeout_signals svc"
  by (simp_all add: timeout_signals_def fun_eq_iff)

lemma timeout_signals_disconnect [simp]:
  "timeout_signals (socket_disconnect svc s) = timeout_signals svc"
  by (simp add: timeout_signals_def fun_eq_iff)

lemma timer_inv_start: "timer_inv (socketService_initialize SocketService_new)"
  by (simp add: timer_inv_def socketService_initialize_def SocketService_new_def timeout_signals_def)

lemma timer_inv_disconnect: "timer_inv svc \<Longrightarrow> timer_inv (socket_disconnect svc s)"
  by (simp add: timer_inv_def socket_disconnect_socket_exists)

lemma timer_inv_emit_other:
  assumes "timer_inv svc" "map_of (sockets svc) s \<noteq> None" "\<And>s'. (s, ev, d) \<noteq> timeout_signal s'"
  shows "timer_inv (socket_emit svc s ev d)"
  using assms by (auto simp add: timer_inv_def timeout_signals_emit)

lemma timer_inv_connection:
  assumes "timer_inv svc" "map_of (sockets svc) s = None"
  shows "timer_inv (on_connection svc s)"
proof -
  have t0: "count_list (timers svc) s = 0" using assms by (simp add: timer_inv_def)
  have "timeout_signal s \<notin> set (outbox svc)"
  proof
    assume "timeout_signal s \<in> set (outbox svc)"
    then have "fst (timeout_signal s) \<in> fst ` set (outbox svc)" by (rule imageI)
    then show False using assms by (simp add: timer_inv_def timeout_signal_def)
  qed
  then have s0: "timeout_signals svc s = 0" by (simp add: timeout_signals_def)
  have ts: "timeout_signals (on_connection svc s) = timeout_signals svc"
    by (simp add: timeout_signals_def on_connection_def fun_eq_iff)
  have tm: "timers (on_connection svc s) = timers svc @ [s]" "outbox (on_connection svc s) = outbox svc"
    by (simp_all add: on_connection_def)
  have ex: "\<And>s'. (map_of (sockets (on_connection svc s)) s' = None) = (s' \<noteq> s \<and> map_of (sockets svc) s' = None)"
    by (auto simp: on_connection_def update_conv')
  show ?thesis using assms(1) t0 s0 unfolding timer_inv_def ts tm ex
    by auto
qed

lemma timer_inv_authenticate:
  assumes "timer_inv svc" "is_connected svc s"
  shows "timer_inv (authenticateSocket svc s token outcome)"
proof -
  have ex: "map_of (sockets svc) s \<noteq> None" using assms(2) by (rule is_connected_exists)
  show ?thesis
  proof (cases "truthy token")
    case False
    then show ?thesis using assms(1) ex
      by (simp add: authenticateSocket_missing timer_inv_emit_other timeout_signal_def)
  next
    case True
    show ?thesis
    proof (cases outcome)
      case (Inl e)
      then show ?thesis using True assms(1) ex
        by (simp add: authenticateSocket_raised timer_inv_disconnect timer_inv_emit_other timeout_signal_def)
    next
      case (Inr r)
      show ?thesis
      proof (cases r)
        case None
        then show ?thesis using Inr True assms(1) ex
          by (simp add: authenticateSocket_rejected timer_inv_disconnect timer_inv_emit_other timeout_signal_def)
      next
        case (Some usr)
        have "timeout_signals (authenticateSocket svc s token (Inr (Some usr))) = timeout_signals svc"
          using True ex by (auto simp: timeout_signals_def auth_ok_outbox timeout_signal_def fun_eq_iff)
        moreover have "fst ` set (outbox (authenticateSocket svc s token (Inr (Some usr)))) = insert s (fst ` set (outbox svc))"
          using True ex by (auto simp: auth_ok_outbox)
        ultimately show ?thesis using Inr Some assms(1) ex
          by (auto simp: timer_inv_def auth_ok_socket_exists)
      qed
    qed
  qed
qed

lemma timer_inv_timeout:
  assumes "timer_inv svc" "s \<in> set (timers svc)"
  shows "timer_inv (auth_timeout svc s)"
proof -
  from assms have "map_of (sockets svc) s \<noteq> None"
    unfolding timer_inv_def by blast
  then obtain sk where sk: "map_of (sockets svc) s = Some sk" by blast
  have pos: "0 < count_list (timers svc) s" using assms(2) by (rule count_list_pos)
  show ?thesis
  proof (cases "truthy_str (userId sk)")
    case True
    have le: "\<And>s'. timeout_signals svc s' + count_list (timers svc) s' \<le> 1"
      using assms(1) by (simp add: timer_inv_def)
    show ?thesis unfolding auth_timeout_authenticated[OF sk True] timer_inv_def
    proof (intro conjI allI impI)
      fix s' assume n: "map_of (sockets (svc\<lparr>timers := remove1 s (timers svc)\<rparr>)) s' = None"
      then show "s' \<notin> set (timers (svc\<lparr>timers := remove1 s (timers svc)\<rparr>))"
        using assms(1) by (auto simp: timer_inv_def dest: notin_set_remove1)
      show "s' \<notin> fst ` set (outbox (svc\<lparr>timers := remove1 s (timers svc)\<rparr>))"
        using assms(1) n by (simp add: timer_inv_def)
    next
      fix s'
      show "timeout_signals (svc\<lparr>timers := remove1 s (timers svc)\<rparr>) s' +
            count_list (timers (svc\<lparr>timers := remove1 s (timers svc)\<rparr>)) s' \<le> 1"
        using le[of s'] by (simp add: count_list_remove1)
    qed
  next
    case False
    have le: "\<And>s'. timeout_signals svc s' + count_list (timers svc) s' \<le> 1"
      using assms(1) by (simp add: timer_inv_def)
    have le': "timeout_signals svc s + count_list (timers svc) s \<le> 1" by (rule le)
    have a: "auth_timeout svc s = socket_disconnect (socket_emit (svc\<lparr>timers := remove1 s (timers svc)\<rparr>) s ''auth_error''
                    [(''message'', JStr ''Authentication timeout'')]) s"
      using sk False by (rule auth_timeout_unauthenticated)
    show ?thesis unfolding a timer_inv_def
    proof (intro conjI allI impI)
      fix s' assume "map_of (sockets (socket_disconnect (socket_emit (svc\<lparr>timers := remove1 s (timers svc)\<rparr>) s ''auth_error''
                    [(''message'', JStr ''Authentication timeout'')]) s)) s' = None"
      then have n: "map_of (sockets svc) s' = None" by (simp add: socket_disconnect_socket_exists)
      then show "s' \<notin> set (timers (socket_disconnect (socket_emit (svc\<lparr>timers := remove1 s (timers svc)\<rparr>) s ''auth_error''
                    [(''message'', JStr ''Authentication timeout'')]) s))"
        using assms(1) by (auto simp: timer_inv_def dest: notin_set_remove1)
      show "s' \<notin> fst ` set (outbox (socket_disconnect (socket_emit (svc\<lparr>timers := remove1 s (timers svc)\<rparr>) s ''auth_error''
                    [(''message'', JStr ''Authentication timeout'')]) s))"
        using assms(1) n sk by (auto simp: timer_inv_def)
    next
      fix s'
      show "timeout_signals (socket_disconnect (socket_emit (svc\<lparr>timers := remove1 s (timers svc)\<rparr>) s ''auth_error''
                    [(''message'', JStr ''Authentication timeout'')]) s) s' + 
            count_list (timers (socket_disconnect (socket_emit (svc\<lparr>timers := remove1 s (timers svc)\<rparr>) s ''auth_error''
                    [(''message'', JStr ''Authentication timeout'')]) s)) s' \<le> 1"
        using le[of s'] le' pos assms(2)
        by (auto simp: timeout_signals_emit count_list_remove1 timeout_signal_def)
    qed
  qed
qed

lemma timer_inv_deliver:
  assumes "timer_inv svc" "registry_inv svc" "sendToUser svc uid ev d now = Inr (sent, svc')"
  shows "timer_inv svc'"
proof -
  from assms(3) obtain r where r: "template_string uid = Some r"
    by (cases "template_string uid") (simp_all add: sendToUser_def)
  let ?room = "''user:'' @ r"
  show ?thesis
  proof (cases "room_members svc ?room = []")
    case True
    then have "svc' = svc\<lparr>offlineNotificationCount := (offlineNotificationCount svc)(uid \<mapsto>
                (case offlineNotificationCount svc uid of None \<Rightarrow> 0 | Some c \<Rightarrow> c) + 1)\<rparr>"
      using assms(2,3) r by (simp add: sendToUser_by_room registry_inv_def)
    then show ?thesis using assms(1) by (simp add: timer_inv_def timeout_signals_def)
  next
    case False
    let ?p = "obj_set d ''timestamp'' (JStr now)"
    have s': "svc' = (room_emit svc ?room ev ?p)
                \<lparr>offlineNotificationCount := (offlineNotificationCount svc)(uid := None)\<rparr>"
      using False assms(2,3) r by (simp add: sendToUser_by_room registry_inv_def)
    have ob: "outbox svc' = outbox svc @ map (\<lambda>s. (s, ev, ?p)) (room_members svc ?room)"
      and tm: "timers svc' = timers svc" and so: "sockets svc' = sockets svc"
      unfolding s' by (simp_all add: room_emit_def)
    have np: "\<And>s s'. (s, ev, ?p) \<noteq> timeout_signal s'"
    proof
      fix s s' assume "(s, ev, ?p) = timeout_signal s'"
      then have "map_of ?p ''timestamp'' =
          map_of [(''message'', JStr ''Authentication timeout'')] ''timestamp''"
        by (simp add: timeout_signal_def)
      then show False by (simp add: obj_set_def update_conv')
    qed
    have cnt: "count_list (map (\<lambda>s. (s, ev, ?p)) ms) (timeout_signal s') = 0" for ms s'
      using np by (induction ms) auto
    have ts: "timeout_signals svc' = timeout_signals svc"
      by (simp add: timeout_signals_def ob cnt fun_eq_iff)
    have mem: "\<And>s. map_of (sockets svc) s = None \<Longrightarrow> s \<notin> set (room_members svc ?room)"
      using assms(2) is_connected_exists unfolding registry_inv_def by blast
    show ?thesis using assms(1) mem unfolding timer_inv_def ts tm so ob
      by (auto simp: image_Un image_image)
  qed
qed

lemma reachable_timer_inv: "reachable svc \<Longrightarrow> timer_inv svc"
proof (induction rule: reachable.induct)
  case (deliver svc uid ev data now sent svc')
  then show ?case using timer_inv_deliver reachable_registry_inv by blast
qed (simp_all add: timer_inv_start timer_inv_connection timer_inv_authenticate
      timer_inv_disconnect timer_inv_timeout)

subsection \<open>The consumer\<close>









subsection \<open>Sockets never bound to a user\<close>
















subsection \<open>When handling raises; the consuming flag\<close>





subsection \<open>What the validator lets through\<close>

lemma hyphenated_examples:
  "hyphenated_uuid ''123e4567-e89b-12d3-a456-426614174000''"
  "hyphenated_uuid ''123e4567-e89b-12d3-a456-426614174001''"
  "hyphenated_uuid ''123e4567-e89b-12d3-a456-426614174002''"
  by (simp_all add: hyphenated_uuid_def)





lemma webhook_route_rejects:
  "\<not> serviceAuth env_key req \<Longrightarrow>
     webhook_route ev payload env_key is_uuid svc req now = (401, svc)"
  "serviceAuth env_key req \<Longrightarrow> validateNotification is_uuid req = Inl status \<Longrightarrow>
     webhook_route ev payload env_key is_uuid svc req now = (400, svc)"
  by (auto simp: webhook_route_def validateNotification_def split: if_splits)












section \<open>Properties\<close>

subsection \<open>Event-kind routing on the two paths\<close>




subsection \<open>Delivery outcome\<close>

text \<open>
  Claim C2. In every reachable state, \<^verbatim>\<open>sendToUser\<close> for a user id returns normally, and
  its result is true exactly when the user has an open registered connection; with none
  it returns false and raises nothing.
\<close>

theorem sendToUser_outcome:
  assumes "reachable svc"
  shows "\<exists>svc'. sendToUser svc (JStr u) ev d now = Inr (live_connections svc u \<noteq> [], svc')"
proof -
  have inv: "registry_inv svc" using assms by (rule reachable_registry_inv)
  then have i: "io svc" by (simp add: registry_inv_def)
  have "(room_members svc (''user:'' @ u) \<noteq> []) = (live_connections svc u \<noteq> [])"
    using live_room[OF inv, of u] by (metis set_empty)
  then show ?thesis using i by (simp add: sendToUser_by_room)
qed

theorem sendToUser_outcome_witness:
  "reachable demo_one_device \<and>
   (\<exists>svc'. sendToUser demo_one_device (JStr ''u1'') ''analysis-complete'' [] ''2024-01-01T12:00:00.000Z'' = Inr (True, svc')) \<and>
   (\<exists>svc'. sendToUser demo_one_device (JStr ''u2'') ''analysis-complete'' [] ''2024-01-01T12:00:00.000Z'' = Inr (False, svc'))"
proof -
  have l1: "live_connections demo_one_device ''u1'' \<noteq> []"
    by (simp add: demo_one_device_eval live_connections_def listConnections_def is_connected_def)
  have l2: "live_connections demo_one_device ''u2'' = []"
    by (simp add: demo_one_device_eval live_connections_def listConnections_def is_connected_def)
  show ?thesis
    using sendToUser_outcome[OF reachable_demo_one_device, of "''u1''" "''analysis-complete''" "[]" "''2024-01-01T12:00:00.000Z''"]
      sendToUser_outcome[OF reachable_demo_one_device, of "''u2''" "''analysis-complete''" "[]" "''2024-01-01T12:00:00.000Z''"]
      l1 l2 reachable_demo_one_device by simp
qed

subsection \<open>Fan-out and timestamp\<close>

text \<open>
  Claim C3. When the user has an open registered connection, \<^verbatim>\<open>sendToUser\<close> returns true
  and emits the event once to each of the user's open connections, every copy carrying
  the caller's payload with \<open>timestamp\<close> set to the server's time.
\<close>

theorem sendToUser_delivers_to_all:
  assumes "reachable svc" and "live_connections svc u \<noteq> []"
  shows "\<exists>svc' ms. sendToUser svc (JStr u) ev d now = Inr (True, svc') \<and>
           outbox svc' = outbox svc @ map (\<lambda>s. (s, ev, obj_set d ''timestamp'' (JStr now))) ms \<and>
           distinct ms \<and> set ms = set (live_connections svc u) \<and>
           map_of (obj_set d ''timestamp'' (JStr now)) = (map_of d)(''timestamp'' \<mapsto> JStr now)"
proof -
  have inv: "registry_inv svc" using assms(1) by (rule reachable_registry_inv)
  then have i: "io svc" and dist: "distinct (room_members svc (''user:'' @ u))"
    by (simp_all add: registry_inv_def)
  have ne: "room_members svc (''user:'' @ u) \<noteq> []"
    using live_room[OF inv, of u] assms(2) by (metis set_empty)
  let ?room = "''user:'' @ u"
  let ?svc' = "(room_emit svc ?room ev (obj_set d ''timestamp'' (JStr now)))
                 \<lparr>offlineNotificationCount := (offlineNotificationCount svc)(JStr u := None)\<rparr>"
  have "sendToUser svc (JStr u) ev d now = Inr (True, ?svc')"
    using i ne by (simp add: sendToUser_by_room)
  moreover have "outbox ?svc' = outbox svc @
      map (\<lambda>s. (s, ev, obj_set d ''timestamp'' (JStr now))) (room_members svc ?room)"
    by (simp add: room_emit_def)
  moreover have "map_of (obj_set d ''timestamp'' (JStr now)) = (map_of d)(''timestamp'' \<mapsto> JStr now)"
    by (simp add: obj_set_def update_conv')
  ultimately show ?thesis
    using dist live_room[OF inv, of u] by blast
qed

theorem sendToUser_delivers_to_all_witness:
  "reachable demo_two_devices \<and> live_connections demo_two_devices ''u1'' \<noteq> [] \<and>
   (\<exists>svc' ms.
      sendToUser demo_two_devices (JStr ''u1'') ''analysis-complete''
        [(''status'', JStr ''completed'')] ''2024-01-01T12:00:00.000Z'' = Inr (True, svc') \<and>
      outbox svc' = outbox demo_two_devices @
        map (\<lambda>s. (s, ''analysis-complete'',
                   [(''status'', JStr ''completed''),
                    (''timestamp'', JStr ''2024-01-01T12:00:00.000Z'')])) ms \<and>
      distinct ms \<and> set ms = {''s1'', ''s2''})"
proof -
  have l: "live_connections demo_two_devices ''u1'' = [''s1'', ''s2'']"
    by (simp add: demo_two_devices_eval live_connections_def listConnections_def is_connected_def)
  then have ne: "live_connections demo_two_devices ''u1'' \<noteq> []" by simp
  from sendToUser_delivers_to_all[OF reachable_demo_two_devices ne,
        of "''analysis-complete''" "[(''status'', JStr ''completed'')]"
           "''2024-01-01T12:00:00.000Z''"]
  obtain svc' ms where
    a: "sendToUser demo_two_devices (JStr ''u1'') ''analysis-complete''
          [(''status'', JStr ''completed'')] ''2024-01-01T12:00:00.000Z'' = Inr (True, svc')" and
    b: "outbox svc' = outbox demo_two_devices @
          map (\<lambda>s. (s, ''analysis-complete'',
                 obj_set [(''status'', JStr ''completed'')] ''timestamp''
                   (JStr ''2024-01-01T12:00:00.000Z''))) ms" and
    c: "distinct ms" and
    d: "set ms = set (live_connections demo_two_devices ''u1'')"
    by blast
  show ?thesis
    using reachable_demo_two_devices ne a b c d l
    by (intro conjI exI[of _ svc'] exI[of _ ms]) (simp_all add: obj_set_def)
qed

subsection \<open>Failed authentication\<close>




subsection \<open>Authentication timeout\<close>

text \<open>
  Claim C5, where it fails. After a successful authentication the timer of the
  connection is still pending.
\<close>

theorem timer_not_cancelled_counterexample:
  "map_of (sockets demo_one_device) ''s1'' =
     Some \<lparr>userId = Some ''u1'', userEmail = Some ''alice@example.org'',
           tokenType = Some ''jwt'', connected = True\<rparr> \<and>
   ''s1'' \<in> set (timers demo_one_device)"
  by (simp add: demo_one_device_eval)

text \<open>
  Claim C5, as amended. When the timer of a connection fires and the socket has no
  non-empty user id, exactly one timeout signal is sent to it and it is closed; when
  the socket has one, the firing only retires the timer. Authentication never removes
  a timer. In every reachable state, the timeout signals sent to a connection and its
  pending timers together number at most one.
\<close>

theorem authentication_timeout:
  assumes "map_of (sockets svc) s = Some sk"
  shows "(\<not> truthy_str (userId sk) \<longrightarrow>
            outbox (auth_timeout svc s) = outbox svc @ [timeout_signal s] \<and>
            \<not> is_connected (auth_timeout svc s) s) \<and>
         (truthy_str (userId sk) \<longrightarrow> auth_timeout svc s = svc\<lparr>timers := remove1 s (timers svc)\<rparr>) \<and>
         timers (authenticateSocket svc s token outcome) = timers svc \<and>
         (reachable svc \<longrightarrow> timeout_signals svc s + count_list (timers svc) s \<le> 1)"
proof -
  have "reachable svc \<Longrightarrow> timeout_signals svc s + count_list (timers svc) s \<le> 1"
    using reachable_timer_inv[of svc] by (simp add: timer_inv_def)
  then show ?thesis using assms
    by (auto simp: auth_timeout_unauthenticated auth_timeout_authenticated authenticateSocket_timers
        timeout_signal_def socket_disconnect_is_connected)
qed

theorem authentication_timeout_witness:
  "reachable demo_connected \<and>
   outbox (auth_timeout demo_connected ''s1'') =
     [(''s1'', ''auth_error'', [(''message'', JStr ''Authentication timeout'')])] \<and>
   \<not> is_connected (auth_timeout demo_connected ''s1'') ''s1'' \<and>
   timeout_signals demo_connected ''s1'' + count_list (timers demo_connected) ''s1'' \<le> 1 \<and>
   auth_timeout demo_one_device ''s1'' = demo_one_device\<lparr>timers := []\<rparr>"
proof -
  have a: "map_of (sockets demo_connected) ''s1'' =
      Some \<lparr>userId = None, userEmail = None, tokenType = None, connected = True\<rparr>"
    by (simp add: demo_connected_eval)
  have b: "map_of (sockets demo_one_device) ''s1'' =
      Some \<lparr>userId = Some ''u1'', userEmail = Some ''alice@example.org'',
            tokenType = Some ''jwt'', connected = True\<rparr>"
    by (simp add: demo_one_device_eval)
  have o: "outbox demo_connected = []" by (simp add: demo_connected_eval)
  have t: "timers demo_one_device = [''s1'']" by (simp add: demo_one_device_eval)
  show ?thesis
    using authentication_timeout[OF a] authentication_timeout[OF b] reachable_demo_connected o t
    by (simp add: truthy_str_def timeout_signal_def)
qed

subsection \<open>Registry invariant\<close>

text \<open>
  Claim C6, at the input where the code breaks it. A socket authenticates as \<open>u1\<close>,
  authenticates again as \<open>u2\<close> and closes: \<^verbatim>\<open>handleDisconnect\<close> clears the entry of
  \<open>u2\<close> only, and \<open>u1\<close> stays a key of the registry with no open connection.
\<close>

theorem reauthentication_leaves_stale_entry:
  "reachable demo_reauth_closed \<and> userConnections demo_reauth_closed = [(''u1'', [''s1''])] \<and>
   \<not> is_connected demo_reauth_closed ''s1''"
proof -
  have "reachable demo_reauth_closed"
    unfolding demo_reauth_closed_def
    by (intro reachable.disconnect reachable.authenticate reachable_demo_one_device)
       (simp add: demo_one_device_eval is_connected_def)
  moreover have "userConnections demo_reauth_closed = [(''u1'', [''s1''])]"
    by (simp add: demo_reauth_closed_def demo_one_device_eval authenticateSocket_def bob_def Let_def
        socket_join_def socket_emit_def listConnections_def set_add_def room_members_def
        socket_disconnect_def handleDisconnect_def)
  moreover have "\<not> is_connected demo_reauth_closed ''s1''"
    by (simp add: demo_reauth_closed_def socket_disconnect_is_connected)
  ultimately show ?thesis by simp
qed

subsection \<open>Acknowledgement and rejection\<close>




subsection \<open>Consumer status\<close>



subsection \<open>Unknown event types\<close>

text \<open>
  Claim C9. A message whose body parses to a value other than null with an event type
  that is none of the three known ones is acknowledged, and the service state is
  unchanged: nothing is delivered.
\<close>

theorem unknown_event_type_acknowledged:
  assumes "content_json msg = Some eventData" and "\<not> nullish eventData"
    and "get_prop eventData ''eventType'' \<noteq> JStr ''analysis.started''"
    and "get_prop eventData ''eventType'' \<noteq> JStr ''analysis.completed''"
    and "get_prop eventData ''eventType'' \<noteq> JStr ''analysis.failed''"
  shows "on_message svc (Some msg) now = (svc, [Ack])"
  using assms by (simp add: on_message_def processEvent_def)

theorem unknown_event_type_acknowledged_witness:
  "on_message demo_one_device (Some \<lparr>content_json = Some heartbeat_event\<rparr>) ''2024-01-01T12:00:00.000Z''
     = (demo_one_device, [Ack])"
  by (rule unknown_event_type_acknowledged[where eventData = heartbeat_event])
     (simp_all add: heartbeat_event_def nullish_def)

subsection \<open>Connection statistics\<close>

text \<open>
  Claim C10. In every reachable state the \<open>authenticated\<close> and \<open>users\<close> counts are equal:
  both are the number of distinct user ids in the registry, so a user with several
  authenticated connections counts once.
\<close>

theorem connection_count_users:
  assumes "reachable svc"
  shows "\<exists>c. getConnectionCount svc = Inr c \<and> authenticated c = users c \<and>
           users c = card (fst ` set (userConnections svc))"
proof -
  have inv: "registry_inv svc" using assms by (rule reachable_registry_inv)
  then have i: "io svc" and dist: "distinct (map fst (userConnections svc))"
    by (simp_all add: registry_inv_def)
  have "card (fst ` set (userConnections svc)) = length (userConnections svc)"
    using distinct_card[OF dist] by simp
  then show ?thesis using i by (simp add: getConnectionCount_def)
qed

theorem connection_count_users_witness:
  "reachable demo_two_devices \<and> length (live_connections demo_two_devices ''u1'') = 2 \<and>
   getConnectionCount demo_two_devices = Inr \<lparr>total = 2, authenticated = 1, users = 1\<rparr>"
proof -
  have "getConnectionCount demo_two_devices = Inr \<lparr>total = 2, authenticated = 1, users = 1\<rparr>"
    by (simp add: getConnectionCount_def demo_two_devices_eval)
  moreover have "length (live_connections demo_two_devices ''u1'') = 2"
    by (simp add: demo_two_devices_eval live_connections_def listConnections_def is_connected_def)
  ultimately show ?thesis
    using connection_count_users[OF reachable_demo_two_devices] reachable_demo_two_devices by simp
qed

end
